theory Spec2Isabelle
  imports Main "HOL-Library.AList" "HOL-Library.Sublist" "HOL-Library.Multiset"
begin

section \<open>Python values used by the portal\<close>

text \<open>
  Python dictionaries keep insertion order and have unique keys. They are modelled as
  association lists: \<open>d[k] = v\<close> is \<^const>\<open>AList.update\<close> (replace the value in place when
  the key is present, append the pair otherwise), \<open>k in d\<close> is membership in the keys,
  \<open>d[k]\<close> and \<open>d.get(k, dflt)\<close> read the first pair with that key.
\<close>

definition dict_get :: "('k \<times> 'v) list \<Rightarrow> 'k \<Rightarrow> 'v \<Rightarrow> 'v" where
  "dict_get d k dflt = (case map_of d k of None \<Rightarrow> dflt | Some v \<Rightarrow> v)"

definition dict_keys :: "('k \<times> 'v) list \<Rightarrow> 'k list" where
  "dict_keys d = map fst d"

text \<open>
  \<open>xs[start:]\<close>: a negative start counts from the end, and both ends are clamped to the
  list, so the slice never raises.
\<close>

definition py_slice_from :: "int \<Rightarrow> 'a list \<Rightarrow> 'a list" where
  "py_slice_from start xs =
     (let len = int (length xs);
          s = (if start < 0 then max (len + start) 0 else min start len)
      in drop (nat s) xs)"

section \<open>ChangelogManager\<close>

text \<open>
  One changelog entry, as the dictionary built by \<open>add_entry\<close>. The key \<open>id\<close> is the
  field \<open>entry_id\<close>.
\<close>

record entry =
  timestamp :: string
  action :: string
  details :: string
  user :: string
  level :: string
  entry_id :: nat

record metadata =
  created :: string
  version :: string
  total_entries :: nat

record changelog =
  entries :: "entry list"
  metadata :: metadata

text \<open>
  The store \<open>load_changelog\<close> builds when the file is absent or unreadable; \<open>now\<close> is the
  reading of \<open>datetime.now().isoformat()\<close>.
\<close>

definition empty_changelog :: "string \<Rightarrow> changelog" where
  "empty_changelog now =
     \<lparr>entries = [],
      metadata = \<lparr>created = now, version = ''1.0.0'', total_entries = 0\<rparr>\<rparr>"

text \<open>
  \<open>add_entry\<close>. The clock is an input of the environment: \<open>clk n\<close> is the reading of
  \<open>datetime.now().isoformat()\<close> taken by the call that finds \<open>n\<close> entries in the store.
  \<open>save_changelog\<close> writes the file and catches its own errors; it does not change the
  store in memory. The result is the new entry and the updated store.
\<close>

definition add_entry ::
  "(nat \<Rightarrow> string) \<Rightarrow> string \<Rightarrow> string \<Rightarrow> string \<Rightarrow> string \<Rightarrow> changelog \<Rightarrow> entry \<times> changelog" where
  "add_entry clk act det usr lvl cl =
     (let e = \<lparr>timestamp = clk (length (entries cl)),
               action = act,
               details = det,
               user = usr,
               level = lvl,
               entry_id = length (entries cl) + 1\<rparr>;
          es = entries cl @ [e]
      in (e, cl\<lparr>entries := es,
                metadata := (metadata cl)\<lparr>total_entries := length es\<rparr>\<rparr>))"

text \<open>
  \<open>get_entries(limit=None, level=None)\<close>. Both arguments are tested for truthiness:
  \<open>None\<close>, the empty string and the integer 0 are false.
\<close>

definition get_entries :: "int option \<Rightarrow> string option \<Rightarrow> changelog \<Rightarrow> entry list" where
  "get_entries limit lvl cl =
     (let es = entries cl;
          es = (case lvl of
                  None \<Rightarrow> es
                | Some l \<Rightarrow> if l \<noteq> [] then filter (\<lambda>e. level e = l) es else es);
          es = (case limit of
                  None \<Rightarrow> es
                | Some n \<Rightarrow> if n \<noteq> 0 then py_slice_from (- n) es else es)
      in es)"

record stats =
  total_entries_stats :: nat
  by_level :: "(string \<times> nat) list"
  by_action :: "(string \<times> nat) list"
  recent_activity :: nat

text \<open>
  The body of the loop of \<open>get_stats\<close>: count the entry under its level and its action.
\<close>

definition count_entry :: "entry \<Rightarrow> stats \<Rightarrow> stats" where
  "count_entry e s =
     (let s = s\<lparr>by_level :=
                  AList.update (level e) (dict_get (by_level s) (level e) 0 + 1) (by_level s)\<rparr>;
          s = s\<lparr>by_action :=
                  AList.update (action e) (dict_get (by_action s) (action e) 0 + 1) (by_action s)\<rparr>
      in s)"

text \<open>
  \<open>get_stats\<close>. \<open>is_recent\<close> stands for \<open>_is_recent\<close>, which compares a timestamp with
  the clock at the time of the call and is false on an unparseable timestamp.
\<close>

definition get_stats :: "(string \<Rightarrow> bool) \<Rightarrow> changelog \<Rightarrow> stats" where
  "get_stats is_recent cl =
     (let es = entries cl;
          s = \<lparr>total_entries_stats = length es,
               by_level = [],
               by_action = [],
               recent_activity = length (filter (\<lambda>e. is_recent (timestamp e)) es)\<rparr>
      in fold count_entry es s)"

text \<open>
  A sequence of appends: each element gives the action, details, user and level of one
  call of \<open>add_entry\<close>.
\<close>

definition run_appends ::
  "(nat \<Rightarrow> string) \<Rightarrow> (string \<times> string \<times> string \<times> string) list \<Rightarrow> changelog \<Rightarrow> changelog" where
  "run_appends clk ops cl =
     fold (\<lambda>(act, det, usr, lvl) c. snd (add_entry clk act det usr lvl c)) ops cl"

section \<open>Strings\<close>

text \<open>
  Python strings are modelled as lists of \<^typ>\<open>char\<close>, one per code point below 256.
  \<open>str.strip()\<close> removes the characters for which \<open>str.isspace\<close> holds from both ends;
  below 256 these are the code points 9 to 13, 28 to 32, 133 and 160.
\<close>

definition py_isspace :: "char \<Rightarrow> bool" where
  "py_isspace c =
     (let n = (of_char c :: nat)
      in (9 \<le> n \<and> n \<le> 13) \<or> (28 \<le> n \<and> n \<le> 32) \<or> n = 133 \<or> n = 160)"

definition strip :: "string \<Rightarrow> string" where
  "strip s = rev (dropWhile py_isspace (rev (dropWhile py_isspace s)))"

text \<open>
  \<open>s.split(sep)\<close> for a separator of one character: the pieces between the
  separators, never an empty list.
\<close>

fun split_on :: "char \<Rightarrow> string \<Rightarrow> string list" where
  "split_on sep [] = [[]]"
| "split_on sep (c # cs) =
     (if c = sep then [] # split_on sep cs
      else (case split_on sep cs of
              [] \<Rightarrow> [[c]]
            | w # ws \<Rightarrow> (c # w) # ws))"

fun starts_with :: "string \<Rightarrow> string \<Rightarrow> bool" where
  "starts_with [] s = True"
| "starts_with (p # ps) [] = False"
| "starts_with (p # ps) (c # cs) = (p = c \<and> starts_with ps cs)"

text \<open>\<open>sub in s\<close> on strings: \<open>sub\<close> occurs in \<open>s\<close> at some position.\<close>

fun str_contains :: "string \<Rightarrow> string \<Rightarrow> bool" where
  "str_contains sub [] = (sub = [])"
| "str_contains sub (c # cs) = (starts_with sub (c # cs) \<or> str_contains sub cs)"

text \<open>The apostrophes an f-string puts around a value.\<close>

definition quoted :: "string \<Rightarrow> string" where
  "quoted s = [CHR 0x27] @ s @ [CHR 0x27]"

section \<open>ContainerMonitor\<close>

text \<open>
  What \<open>subprocess.run(..., capture_output=True, text=True, timeout=t)\<close> gives: a
  completed process with its return code, standard output and standard error, or an
  exception (the timeout, a missing executable) with its text \<open>str(e)\<close>.
\<close>

datatype proc_result = Completed int string string | Raised string

text \<open>
  The dictionary stored for one container. The keys \<open>image\<close> and \<open>size\<close> are the fields
  \<open>image_c\<close> and \<open>size_c\<close>.
\<close>

record snapshot =
  name :: string
  status :: string
  status_text :: string
  color :: string
  ports :: string
  image_c :: string
  size_c :: string
  last_updated :: string

text \<open>
  The \<open>if\<close>/\<open>elif\<close> chain of \<open>get_all_container_status\<close> that determines the status type
  and its colour from the status text.
\<close>

definition status_type :: "string \<Rightarrow> string \<times> string" where
  "status_type st =
     (if str_contains ''Up'' st then (''running'', ''success'')
      else if str_contains ''Exited'' st then (''stopped'', ''danger'')
      else if str_contains ''Created'' st then (''created'', ''warning'')
      else (''unknown'', ''secondary''))"

text \<open>
  The body of the loop over the lines of the output; \<open>now\<close> is the clock reading taken
  for this line.
\<close>

definition parse_line ::
  "string \<Rightarrow> string \<Rightarrow> (string \<times> snapshot) list \<Rightarrow> (string \<times> snapshot) list" where
  "parse_line now line containers =
     (if strip line \<noteq> [] then
        (let parts = split_on (CHR 0x09) line
         in if length parts \<ge> 5 then
              (let nm = strip (parts ! 0);
                   st = strip (parts ! 1);
                   po = strip (parts ! 2);
                   im = strip (parts ! 3);
                   sz = strip (parts ! 4);
                   (ty, co) = status_type st
               in AList.update nm
                    \<lparr>name = nm, status = ty, status_text = st, color = co,
                     ports = po, image_c = im, size_c = sz, last_updated = now\<rparr>
                    containers)
            else containers)
      else containers)"

text \<open>
  \<open>lines = result.stdout.strip().split('\n')\<close>, each line with its position, which
  selects the clock reading \<open>now i\<close> of that iteration.
\<close>

definition output_lines :: "string \<Rightarrow> (nat \<times> string) list" where
  "output_lines out = enumerate 0 (split_on (CHR 0x0A) (strip out))"

definition parse_lines ::
  "(nat \<Rightarrow> string) \<Rightarrow> (nat \<times> string) list \<Rightarrow> (string \<times> snapshot) list" where
  "parse_lines now ls = fold (\<lambda>(i, line) containers. parse_line (now i) line containers) ls []"

text \<open>
  \<open>get_all_container_status\<close>: the parsed output when the list command returns 0, the
  empty dictionary when it returns another code or raises.
\<close>

definition get_all_container_status ::
  "(nat \<Rightarrow> string) \<Rightarrow> proc_result \<Rightarrow> (string \<times> snapshot) list" where
  "get_all_container_status now r =
     (case r of
        Completed rc out err \<Rightarrow>
          if rc = 0 then parse_lines now (output_lines out) else []
      | Raised e \<Rightarrow> [])"

record monitor =
  changelog :: changelog
  container_status :: "(string \<times> snapshot) list"
  previous_status :: "(string \<times> string) list"
  monitoring :: bool

text \<open>
  The dictionary comprehension \<open>{name: status["status"] for name, status in
  current_status.items()}\<close>.
\<close>

definition status_view :: "(string \<times> snapshot) list \<Rightarrow> (string \<times> string) list" where
  "status_view current_status =
     fold (\<lambda>(nm, info) d. AList.update nm (status info) d) current_status []"

text \<open>
  The body of the first loop of \<open>_check_status_changes\<close>. The test \<open>name not in
  self.previous_status\<close> and the read \<open>self.previous_status[name]\<close> are one lookup.
\<close>

definition check_current ::
  "(nat \<Rightarrow> string) \<Rightarrow> (string \<times> string) list \<Rightarrow> string \<times> snapshot \<Rightarrow> changelog \<Rightarrow> changelog" where
  "check_current clk prev item cl =
     (case item of (nm, status_info) \<Rightarrow>
        (case map_of prev nm of
           None \<Rightarrow>
             snd (add_entry clk ''container_started''
                    (''Container '' @ quoted nm @ '' started with status: '' @ status status_info)
                    ''system'' ''info'' cl)
         | Some old \<Rightarrow>
             if old \<noteq> status status_info then
               snd (add_entry clk ''container_status_changed''
                      (''Container '' @ quoted nm @ '' status changed from '' @ quoted old
                         @ '' to '' @ quoted (status status_info))
                      ''system'' ''warning'' cl)
             else cl))"

text \<open>The body of the second loop of \<open>_check_status_changes\<close>.\<close>

definition check_previous ::
  "(nat \<Rightarrow> string) \<Rightarrow> (string \<times> string) list \<Rightarrow> string \<Rightarrow> changelog \<Rightarrow> changelog" where
  "check_previous clk current_containers nm cl =
     (if map_of current_containers nm = None then
        snd (add_entry clk ''container_stopped''
               (''Container '' @ quoted nm @ '' stopped'')
               ''system'' ''warning'' cl)
      else cl)"

definition check_status_changes ::
  "(nat \<Rightarrow> string) \<Rightarrow> (string \<times> snapshot) list \<Rightarrow> monitor \<Rightarrow> monitor" where
  "check_status_changes clk current_status m =
     (let current_containers = status_view current_status;
          cl = fold (check_current clk (previous_status m)) current_status (changelog m);
          cl = fold (check_previous clk current_containers) (dict_keys (previous_status m)) cl
      in m\<lparr>changelog := cl\<rparr>)"

text \<open>
  One iteration of \<open>_monitor_loop\<close>, without the sleep: \<open>r\<close> is the outcome of the list
  command. Nothing in the body raises in this model, so the \<open>except\<close> branch of the loop
  is not taken.
\<close>

definition monitor_cycle ::
  "(nat \<Rightarrow> string) \<Rightarrow> (nat \<Rightarrow> string) \<Rightarrow> proc_result \<Rightarrow> monitor \<Rightarrow> monitor" where
  "monitor_cycle clk now r m =
     (let current_status = get_all_container_status now r;
          m = check_status_changes clk current_status m
      in m\<lparr>container_status := current_status,
            previous_status := status_view current_status\<rparr>)"

text \<open>The state of a monitor after \<open>__init__\<close>.\<close>

definition init_monitor :: "changelog \<Rightarrow> monitor" where
  "init_monitor cl =
     \<lparr>changelog = cl, container_status = [], previous_status = [], monitoring = False\<rparr>"

subsection \<open>Manual control\<close>

record op_result =
  success :: bool
  message :: string

text \<open>
  \<open>start_container\<close>, \<open>stop_container\<close> and \<open>restart_container\<close>; \<open>r\<close> is the outcome of
  the command. \<open>add_entry\<close> is called without \<open>user\<close>, so with its default \<open>"system"\<close>.
\<close>

definition start_container ::
  "(nat \<Rightarrow> string) \<Rightarrow> string \<Rightarrow> proc_result \<Rightarrow> monitor \<Rightarrow> op_result \<times> monitor" where
  "start_container clk container_name r m =
     (case r of
        Completed rc out err \<Rightarrow>
          if rc = 0 then
            (\<lparr>success = True,
              message = ''Container '' @ container_name @ '' started successfully''\<rparr>,
             m\<lparr>changelog := snd (add_entry clk ''container_started''
                                  (''Container '' @ quoted container_name @ '' started manually'')
                                  ''system'' ''info'' (changelog m))\<rparr>)
          else (\<lparr>success = False, message = ''Failed to start container: '' @ err\<rparr>, m)
      | Raised e \<Rightarrow>
          (\<lparr>success = False, message = ''Error starting container: '' @ e\<rparr>, m))"

definition stop_container ::
  "(nat \<Rightarrow> string) \<Rightarrow> string \<Rightarrow> proc_result \<Rightarrow> monitor \<Rightarrow> op_result \<times> monitor" where
  "stop_container clk container_name r m =
     (case r of
        Completed rc out err \<Rightarrow>
          if rc = 0 then
            (\<lparr>success = True,
              message = ''Container '' @ container_name @ '' stopped successfully''\<rparr>,
             m\<lparr>changelog := snd (add_entry clk ''container_stopped''
                                  (''Container '' @ quoted container_name @ '' stopped manually'')
                                  ''system'' ''info'' (changelog m))\<rparr>)
          else (\<lparr>success = False, message = ''Failed to stop container: '' @ err\<rparr>, m)
      | Raised e \<Rightarrow>
          (\<lparr>success = False, message = ''Error stopping container: '' @ e\<rparr>, m))"

definition restart_container ::
  "(nat \<Rightarrow> string) \<Rightarrow> string \<Rightarrow> proc_result \<Rightarrow> monitor \<Rightarrow> op_result \<times> monitor" where
  "restart_container clk container_name r m =
     (case r of
        Completed rc out err \<Rightarrow>
          if rc = 0 then
            (\<lparr>success = True,
              message = ''Container '' @ container_name @ '' restarted successfully''\<rparr>,
             m\<lparr>changelog := snd (add_entry clk ''container_restarted''
                                  (''Container '' @ quoted container_name @ '' restarted manually'')
                                  ''system'' ''info'' (changelog m))\<rparr>)
          else (\<lparr>success = False, message = ''Failed to restart container: '' @ err\<rparr>, m)
      | Raised e \<Rightarrow>
          (\<lparr>success = False, message = ''Error restarting container: '' @ e\<rparr>, m))"

text \<open>
  The three control routes \<open>/api/containers/<name>/start\<close>, \<open>.../stop\<close> and
  \<open>.../restart\<close>, which call the method of the same name.
\<close>

datatype control = Start | Stop | Restart

fun control_container ::
  "control \<Rightarrow> (nat \<Rightarrow> string) \<Rightarrow> string \<Rightarrow> proc_result \<Rightarrow> monitor \<Rightarrow> op_result \<times> monitor" where
  "control_container Start = start_container"
| "control_container Stop = stop_container"
| "control_container Restart = restart_container"

section \<open>Properties of the changelog\<close>

lemma entries_add_entry:
  "entries (snd (add_entry clk act det usr lvl cl)) = entries cl @ [fst (add_entry clk act det usr lvl cl)]"
  by (simp add: add_entry_def Let_def)

lemma entry_id_add_entry:
  "entry_id (fst (add_entry clk act det usr lvl cl)) = Suc (length (entries cl))"
  by (simp add: add_entry_def Let_def)

lemma run_appends_Nil: "run_appends clk [] cl = cl"
  by (simp add: run_appends_def)

lemma run_appends_append:
  "run_appends clk (ops @ later) cl = run_appends clk later (run_appends clk ops cl)"
  by (simp add: run_appends_def)

lemma run_appends_snoc:
  "run_appends clk (ops @ [(act, det, usr, lvl)]) cl =
     snd (add_entry clk act det usr lvl (run_appends clk ops cl))"
  by (simp add: run_appends_def)

lemma run_appends_extends:
  "\<exists>news. entries (run_appends clk ops cl) = entries cl @ news \<and> length news = length ops"
proof (induction ops rule: rev_induct)
  case Nil
  show ?case by (simp add: run_appends_Nil)
next
  case (snoc x ops)
  obtain act det usr lvl where x: "x = (act, det, usr, lvl)"
    by (cases x) auto
  from snoc obtain news where
    news: "entries (run_appends clk ops cl) = entries cl @ news" "length news = length ops"
    by blast
  have "entries (run_appends clk (ops @ [x]) cl) =
          entries cl @ (news @ [fst (add_entry clk act det usr lvl (run_appends clk ops cl))])"
    by (simp add: x run_appends_snoc entries_add_entry news)
  then show ?case
    using news(2) by (metis length_append_singleton)
qed

lemma length_run_appends:
  "length (entries (run_appends clk ops cl)) = length (entries cl) + length ops"
  using run_appends_extends [of clk ops cl] by auto

lemma run_appends_ids:
  "map entry_id (entries (run_appends clk ops (empty_changelog t))) = [1..<Suc (length ops)]"
proof (induction ops rule: rev_induct)
  case Nil
  show ?case by (simp add: run_appends_Nil empty_changelog_def)
next
  case (snoc x ops)
  obtain act det usr lvl where x: "x = (act, det, usr, lvl)"
    by (cases x) auto
  have len: "length (entries (run_appends clk ops (empty_changelog t))) = length ops"
    by (simp add: length_run_appends empty_changelog_def)
  show ?case
    by (simp add: x run_appends_snoc entries_add_entry entry_id_add_entry snoc len)
qed

lemma run_appends_total:
  "total_entries (metadata (run_appends clk ops (empty_changelog t))) = length ops"
proof (cases ops rule: rev_cases)
  case Nil
  then show ?thesis by (simp add: run_appends_Nil empty_changelog_def)
next
  case (snoc ops' x)
  obtain act det usr lvl where x: "x = (act, det, usr, lvl)"
    by (cases x) auto
  have len: "length (entries (run_appends clk ops' (empty_changelog t))) = length ops'"
    by (simp add: length_run_appends empty_changelog_def)
  show ?thesis
    by (simp add: snoc x run_appends_snoc add_entry_def Let_def len)
qed

text \<open>
  C4. Starting from the empty store, after any sequence of appends the ids of the
  entries are 1, 2, ..., n in this order (1-based, increasing, no gap), the recorded
  total is n, and the entries present after the first appends are still there, unchanged
  and at the same positions, after any further appends.
\<close>

theorem changelog_ids_gapless:
  "map entry_id (entries (run_appends clk ops (empty_changelog t))) = [1..<Suc (length ops)]
   \<and> total_entries (metadata (run_appends clk ops (empty_changelog t))) = length ops
   \<and> prefix (entries (run_appends clk ops (empty_changelog t)))
            (entries (run_appends clk (ops @ later) (empty_changelog t)))"
proof (intro conjI)
  show "map entry_id (entries (run_appends clk ops (empty_changelog t))) = [1..<Suc (length ops)]"
    by (rule run_appends_ids)
  show "total_entries (metadata (run_appends clk ops (empty_changelog t))) = length ops"
    by (rule run_appends_total)
  show "prefix (entries (run_appends clk ops (empty_changelog t)))
               (entries (run_appends clk (ops @ later) (empty_changelog t)))"
    using run_appends_extends [of clk later "run_appends clk ops (empty_changelog t)"]
    by (auto simp: run_appends_append prefix_def)
qed

text \<open>
  C10. A limit of 0 is false under Python's truthiness test, so the slice is not taken:
  for every store and every level argument, reading with limit 0 returns the full
  level-filtered sequence (all entries of that level for a non-empty level, all entries
  for an absent or empty level), which is what reading with no limit returns; right
  after an append it holds the old entries followed by the new one, so it is not empty.
\<close>

theorem get_entries_limit_zero:
  "get_entries (Some 0) lvl cl =
     (case lvl of
        None \<Rightarrow> entries cl
      | Some l \<Rightarrow> if l = [] then entries cl else filter (\<lambda>e. level e = l) (entries cl))
   \<and> get_entries (Some 0) lvl cl = get_entries None lvl cl
   \<and> get_entries (Some 0) None (snd (add_entry clk act det usr lv cl))
       = entries cl @ [fst (add_entry clk act det usr lv cl)]"
  by (simp add: get_entries_def add_entry_def Let_def split: option.splits)

lemma py_slice_from_neg:
  "0 < n \<Longrightarrow> py_slice_from (- n) xs = drop (length xs - nat n) xs"
  by (auto simp: py_slice_from_def Let_def max_def nat_diff_distrib')

lemma py_slice_from_pos:
  "0 \<le> k \<Longrightarrow> py_slice_from k xs = drop (nat k) xs"
  by (auto simp: py_slice_from_def Let_def min_def)

text \<open>
  C7, as amended. For every store, limit and level: the read first filters by level when
  the level is a non-empty string (an absent level and the empty string filter nothing);
  then a positive limit \<open>n\<close> keeps the last \<open>n\<close> entries of the filtered sequence, in
  their order (all of them when there are fewer), an absent limit and the limit 0 keep
  the whole filtered sequence, and a negative limit \<open>- k\<close> drops its first \<open>k\<close> entries.
  Immediately after an append, the read with limit 1 and no level is exactly the entry
  just appended.
\<close>

theorem get_entries_filter_then_last:
  "get_entries limit lvl cl =
     (let filtered =
            (case lvl of
               None \<Rightarrow> entries cl
             | Some l \<Rightarrow> if l = [] then entries cl else filter (\<lambda>e. level e = l) (entries cl))
      in case limit of
           None \<Rightarrow> filtered
         | Some n \<Rightarrow>
             if n = 0 then filtered
             else if 0 < n then drop (length filtered - nat n) filtered
             else drop (nat (- n)) filtered)
   \<and> get_entries (Some 1) None (snd (add_entry clk act det usr lv cl))
       = [fst (add_entry clk act det usr lv cl)]"
  by (auto simp: get_entries_def Let_def py_slice_from_neg py_slice_from_pos add_entry_def
           split: option.splits)

text \<open>
  The claim as stated fails at limit 0 and at the empty level: on a store of one entry of
  level \<open>info\<close>, the read with limit 0 returns one entry, more than the last 0 entries,
  and the read with level \<open>""\<close> returns that entry although its level is not \<open>""\<close>.
\<close>

theorem get_entries_limit_counterexample:
  "\<not> length (get_entries (Some 0) None
        (snd (add_entry (\<lambda>_. ''t1'') ''portal_access'' ''Portal accessed'' ''anonymous'' ''info''
               (empty_changelog ''t0'')))) \<le> nat 0
   \<and> get_entries None (Some [])
        (snd (add_entry (\<lambda>_. ''t1'') ''portal_access'' ''Portal accessed'' ''anonymous'' ''info''
               (empty_changelog ''t0'')))
       \<noteq> filter (\<lambda>e. level e = [])
            (entries (snd (add_entry (\<lambda>_. ''t1'') ''portal_access'' ''Portal accessed''
                            ''anonymous'' ''info'' (empty_changelog ''t0''))))"
  by (simp add: get_entries_def add_entry_def empty_changelog_def Let_def)

lemma sum_update_count:
  "sum_list (map snd (AList.update k (Suc (dict_get d k 0)) d)) = Suc (sum_list (map snd d))"
  by (induction d) (auto simp: dict_get_def)

lemma count_entry_sums:
  "sum_list (map snd (by_level (count_entry e s))) = sum_list (map snd (by_level s)) + 1"
  "sum_list (map snd (by_action (count_entry e s))) = sum_list (map snd (by_action s)) + 1"
  "total_entries_stats (count_entry e s) = total_entries_stats s"
  by (simp_all add: count_entry_def Let_def sum_update_count)

lemma fold_count_entry_sums:
  "sum_list (map snd (by_level (fold count_entry es s))) = sum_list (map snd (by_level s)) + length es
   \<and> sum_list (map snd (by_action (fold count_entry es s))) = sum_list (map snd (by_action s)) + length es
   \<and> total_entries_stats (fold count_entry es s) = total_entries_stats s"
  by (induction es arbitrary: s) (simp_all add: count_entry_sums)

text \<open>
  C8. For every store, the total reported by \<open>get_stats\<close> is the number of entries of the
  unfiltered read, and the counts per level and the counts per action each add up to
  that total.
\<close>

theorem get_stats_totals:
  "total_entries_stats (get_stats is_recent cl) = length (get_entries None None cl)
   \<and> sum_list (map snd (by_level (get_stats is_recent cl))) = total_entries_stats (get_stats is_recent cl)
   \<and> sum_list (map snd (by_action (get_stats is_recent cl))) = total_entries_stats (get_stats is_recent cl)"
  by (simp add: get_stats_def Let_def fold_count_entry_sums get_entries_def)

section \<open>Properties of manual control\<close>

text \<open>
  C2, as amended. For every container name, when the start, stop or restart command
  returns 0, the operation reports success and the changelog grows by exactly one entry,
  with the action \<open>container_started\<close>, \<open>container_stopped\<close> or \<open>container_restarted\<close>,
  level \<open>info\<close>, the next id, and the user \<open>system\<close> (the default of \<open>add_entry\<close>); that
  the action was manual is recorded in the details text only.
\<close>

theorem control_success_appends_one:
  "entries (changelog (snd (control_container c clk nm (Completed 0 out err) m)))
     = entries (changelog m) @
       [\<lparr>timestamp = clk (length (entries (changelog m))),
         action = (case c of Start \<Rightarrow> ''container_started''
                           | Stop \<Rightarrow> ''container_stopped''
                           | Restart \<Rightarrow> ''container_restarted''),
         details = ''Container '' @ quoted nm @
                   (case c of Start \<Rightarrow> '' started manually''
                            | Stop \<Rightarrow> '' stopped manually''
                            | Restart \<Rightarrow> '' restarted manually''),
         user = ''system'',
         level = ''info'',
         entry_id = length (entries (changelog m)) + 1\<rparr>]
   \<and> success (fst (control_container c clk nm (Completed 0 out err) m))"
  by (cases c)
     (simp_all add: start_container_def stop_container_def restart_container_def
                    add_entry_def Let_def)

text \<open>
  The claim as stated fails: after a successful manual start of \<open>web\<close> the user of the
  appended entry is not \<open>manual\<close>.
\<close>

theorem control_actor_counterexample:
  "user (last (entries (changelog (snd (control_container Start (\<lambda>_. ''t1'') ''web''
           (Completed 0 ''web'' []) (init_monitor (empty_changelog ''t0''))))))) \<noteq> ''manual''"
  by (simp add: start_container_def add_entry_def Let_def init_monitor_def empty_changelog_def)

text \<open>
  C3. For every container name, when the start, stop or restart command returns a
  non-zero code, or raises (a timeout is raised by \<open>subprocess.run\<close>), the operation
  returns \<open>success = False\<close>, its message ends with the captured error text (the standard
  error of the command, or the text of the exception), and the monitor, with its
  changelog, is unchanged.
\<close>

theorem control_failure_appends_nothing:
  "(rc \<noteq> 0 \<longrightarrow>
      control_container c clk nm (Completed rc out err) m
        = (\<lparr>success = False,
            message = (case c of Start \<Rightarrow> ''Failed to start container: ''
                               | Stop \<Rightarrow> ''Failed to stop container: ''
                               | Restart \<Rightarrow> ''Failed to restart container: '') @ err\<rparr>, m))
   \<and> control_container c clk nm (Raised e) m
        = (\<lparr>success = False,
            message = (case c of Start \<Rightarrow> ''Error starting container: ''
                               | Stop \<Rightarrow> ''Error stopping container: ''
                               | Restart \<Rightarrow> ''Error restarting container: '') @ e\<rparr>, m)"
  by (cases c)
     (simp_all add: start_container_def stop_container_def restart_container_def)

theorem control_failure_witness:
  "(1::int) \<noteq> 0
   \<and> control_container Stop (\<lambda>_. ''t1'') ''web'' (Completed 1 [] ''No such container: web'')
        (init_monitor (empty_changelog ''t0''))
       = (\<lparr>success = False, message = ''Failed to stop container: No such container: web''\<rparr>,
          init_monitor (empty_changelog ''t0''))
   \<and> control_container Stop (\<lambda>_. ''t1'') ''web'' (Raised ''timed out after 30 seconds'')
        (init_monitor (empty_changelog ''t0''))
       = (\<lparr>success = False, message = ''Error stopping container: timed out after 30 seconds''\<rparr>,
          init_monitor (empty_changelog ''t0''))"
  using control_failure_appends_nothing
          [of 1 Stop "\<lambda>_. ''t1''" "''web''" "[]" "''No such container: web''"
              "init_monitor (empty_changelog ''t0'')" "''timed out after 30 seconds''"]
  by simp

section \<open>Properties of the status diff\<close>

lemma fold_appends:
  assumes step: "\<And>x cl. \<exists>news. entries (f x cl) = entries cl @ news \<and> map ev news = g x"
  shows "\<exists>news. entries (fold f xs cl) = entries cl @ news \<and> map ev news = concat (map g xs)"
proof (induction xs arbitrary: cl)
  case Nil
  show ?case by simp
next
  case (Cons x xs)
  from step obtain n1 where n1: "entries (f x cl) = entries cl @ n1" "map ev n1 = g x"
    by blast
  from Cons [of "f x cl"] obtain n2 where
    n2: "entries (fold f xs (f x cl)) = entries (f x cl) @ n2" "map ev n2 = concat (map g xs)"
    by blast
  have "entries (fold f (x # xs) cl) = entries cl @ (n1 @ n2)"
    by (simp add: n1 n2)
  moreover have "map ev (n1 @ n2) = concat (map g (x # xs))"
    by (simp add: n1 n2)
  ultimately show ?case by blast
qed

lemma check_current_step:
  "\<exists>news. entries (check_current clk prev x cl) = entries cl @ news
     \<and> map (\<lambda>e. (action e, level e, details e)) news =
       (case x of (nm, info) \<Rightarrow>
          (case map_of prev nm of
             None \<Rightarrow> [(''container_started'', ''info'',
                       ''Container '' @ quoted nm @ '' started with status: '' @ status info)]
           | Some old \<Rightarrow>
               if old \<noteq> status info
               then [(''container_status_changed'', ''warning'',
                      ''Container '' @ quoted nm @ '' status changed from '' @ quoted old
                        @ '' to '' @ quoted (status info))]
               else []))"
  by (cases x) (simp add: check_current_def add_entry_def Let_def split: option.splits)

lemma check_previous_step:
  "\<exists>news. entries (check_previous clk cc nm cl) = entries cl @ news
     \<and> map (\<lambda>e. (action e, level e, details e)) news =
       (if map_of cc nm = None
        then [(''container_stopped'', ''warning'', ''Container '' @ quoted nm @ '' stopped'')]
        else [])"
  by (simp add: check_previous_def add_entry_def Let_def)

lemma keys_fold_update:
  "fst ` set (fold (\<lambda>(nm, info) d. AList.update nm (h info) d) xs d) = fst ` set d \<union> fst ` set xs"
  by (induction xs arbitrary: d) (auto simp: dom_update split: prod.splits)

lemma keys_status_view: "fst ` set (status_view cur) = fst ` set cur"
  by (simp add: status_view_def keys_fold_update)

lemma map_of_status_view_None:
  "map_of (status_view cur) nm = None \<longleftrightarrow> nm \<notin> fst ` set cur"
  by (simp add: map_of_eq_None_iff keys_status_view)

lemma mset_current_events:
  "mset (concat (map (\<lambda>x. case x of (nm, info) \<Rightarrow>
          (case map_of prev nm of
             None \<Rightarrow> [S nm info]
           | Some old \<Rightarrow> if old \<noteq> status info then [C nm old info] else [])) cur)) =
     mset (map (\<lambda>(nm, info). S nm info)
            (filter (\<lambda>(nm, info). nm \<notin> set (dict_keys prev)) cur))
   + mset (map (\<lambda>(nm, info). C nm (dict_get prev nm []) info)
            (filter (\<lambda>(nm, info). nm \<in> set (dict_keys prev) \<and> dict_get prev nm [] \<noteq> status info) cur))"
proof (induction cur)
  case Nil
  show ?case by simp
next
  case (Cons x cur)
  obtain nm info where x: "x = (nm, info)" by (cases x)
  show ?case
  proof (cases "map_of prev nm")
    case None
    then have "nm \<notin> set (dict_keys prev)"
      by (simp add: dict_keys_def map_of_eq_None_iff)
    with None Cons show ?thesis by (simp add: x)
  next
    case (Some old)
    then have "nm \<in> set (dict_keys prev)"
      by (metis dict_keys_def map_of_eq_None_iff option.distinct(1) set_map)
    with Some Cons show ?thesis by (simp add: x dict_get_def)
  qed
qed

lemma previous_events:
  "concat (map (\<lambda>nm. if map_of (status_view cur) nm = None then [T nm] else []) ks) =
     map T (filter (\<lambda>nm. nm \<notin> set (dict_keys cur)) ks)"
  by (induction ks) (simp_all add: map_of_status_view_None dict_keys_def)

text \<open>
  C5. For every stored previous view and every current view, \<open>_check_status_changes\<close>
  only appends to the changelog, and the appended entries are, as a multiset: one
  \<open>container_started\<close> entry of level \<open>info\<close> for each item of the current view whose
  name is not in the previous view; one \<open>container_status_changed\<close> entry of level
  \<open>warning\<close>, whose details carry the old and the new status (the status types, such
  as \<open>running\<close> and \<open>stopped\<close>, which are what the diff compares), for each item of
  the current view whose name is in the previous view with a different status; one
  \<open>container_stopped\<close> entry of level \<open>warning\<close> for each name of the previous view that
  is not in the current view; and nothing else.
\<close>

theorem check_status_changes_events:
  "\<exists>news.
     entries (changelog (check_status_changes clk cur m)) = entries (changelog m) @ news
   \<and> mset (map (\<lambda>e. (action e, level e, details e)) news) =
       mset (map (\<lambda>(nm, info).
                   (''container_started'', ''info'',
                    ''Container '' @ quoted nm @ '' started with status: '' @ status info))
              (filter (\<lambda>(nm, info). nm \<notin> set (dict_keys (previous_status m))) cur))
     + mset (map (\<lambda>(nm, info).
                   (''container_status_changed'', ''warning'',
                    ''Container '' @ quoted nm @ '' status changed from ''
                      @ quoted (dict_get (previous_status m) nm []) @ '' to ''
                      @ quoted (status info)))
              (filter (\<lambda>(nm, info). nm \<in> set (dict_keys (previous_status m))
                                     \<and> dict_get (previous_status m) nm [] \<noteq> status info) cur))
     + mset (map (\<lambda>nm. (''container_stopped'', ''warning'',
                         ''Container '' @ quoted nm @ '' stopped''))
              (filter (\<lambda>nm. nm \<notin> set (dict_keys cur)) (dict_keys (previous_status m))))"
proof -
  let ?ev = "\<lambda>e. (action e, level e, details e)"
  let ?prev = "previous_status m"
  let ?cl1 = "fold (check_current clk ?prev) cur (changelog m)"
  from fold_appends [of "check_current clk ?prev" ?ev _ cur "changelog m", OF check_current_step]
  obtain n1 where n1: "entries ?cl1 = entries (changelog m) @ n1"
    "map ?ev n1 = concat (map (\<lambda>x. case x of (nm, info) \<Rightarrow>
          (case map_of ?prev nm of
             None \<Rightarrow> [(''container_started'', ''info'',
                       ''Container '' @ quoted nm @ '' started with status: '' @ status info)]
           | Some old \<Rightarrow>
               if old \<noteq> status info
               then [(''container_status_changed'', ''warning'',
                      ''Container '' @ quoted nm @ '' status changed from '' @ quoted old
                        @ '' to '' @ quoted (status info))]
               else [])) cur)"
    by blast
  from fold_appends [of "check_previous clk (status_view cur)" ?ev _ "dict_keys ?prev" ?cl1,
                     OF check_previous_step]
  obtain n2 where n2:
    "entries (fold (check_previous clk (status_view cur)) (dict_keys ?prev) ?cl1) = entries ?cl1 @ n2"
    "map ?ev n2 = concat (map (\<lambda>nm. if map_of (status_view cur) nm = None
        then [(''container_stopped'', ''warning'', ''Container '' @ quoted nm @ '' stopped'')]
        else []) (dict_keys ?prev))"
    by blast
  have e: "entries (changelog (check_status_changes clk cur m)) = entries (changelog m) @ (n1 @ n2)"
    by (simp add: check_status_changes_def Let_def n1 n2)
  have "mset (map ?ev (n1 @ n2)) = mset (map ?ev n1) + mset (map ?ev n2)"
    by simp
  also have "mset (map ?ev n1) = 
       mset (map (\<lambda>(nm, info).
                   (''container_started'', ''info'',
                    ''Container '' @ quoted nm @ '' started with status: '' @ status info))
              (filter (\<lambda>(nm, info). nm \<notin> set (dict_keys ?prev)) cur))
     + mset (map (\<lambda>(nm, info).
                   (''container_status_changed'', ''warning'',
                    ''Container '' @ quoted nm @ '' status changed from ''
                      @ quoted (dict_get ?prev nm []) @ '' to ''
                      @ quoted (status info)))
              (filter (\<lambda>(nm, info). nm \<in> set (dict_keys ?prev)
                                     \<and> dict_get ?prev nm [] \<noteq> status info) cur))"
    unfolding n1(2)
    by (rule mset_current_events
          [where prev = ?prev and cur = cur and S = "\<lambda>nm info. (''container_started'', ''info'',
                    ''Container '' @ quoted nm @ '' started with status: '' @ status info)"
              and C = "\<lambda>nm old info. (''container_status_changed'', ''warning'',
                    ''Container '' @ quoted nm @ '' status changed from ''
                      @ quoted old @ '' to '' @ quoted (status info))"])
  also have "mset (map ?ev n2) =
      mset (map (\<lambda>nm. (''container_stopped'', ''warning'',
                         ''Container '' @ quoted nm @ '' stopped''))
              (filter (\<lambda>nm. nm \<notin> set (dict_keys cur)) (dict_keys ?prev)))"
    unfolding n2(2) by (simp only: previous_events)
  finally show ?thesis using e by blast
qed

lemma fold_identity:
  assumes "\<And>x cl. x \<in> set xs \<Longrightarrow> f x cl = cl"
  shows "fold f xs cl = cl"
  using assms by (induction xs arbitrary: cl) simp_all

lemma map_of_fold_update_other:
  "nm \<notin> fst ` set xs \<Longrightarrow>
     map_of (fold (\<lambda>(k, info) d. AList.update k (h info) d) xs d) nm = map_of d nm"
  by (induction xs arbitrary: d) (auto simp: update_conv' split: prod.splits)

lemma map_of_fold_update_member:
  "distinct (map fst xs) \<Longrightarrow> (nm, info) \<in> set xs \<Longrightarrow>
     map_of (fold (\<lambda>(k, info) d. AList.update k (h info) d) xs d) nm = Some (h info)"
proof (induction xs arbitrary: d)
  case Nil
  then show ?case by simp
next
  case (Cons x xs)
  obtain k i where x: "x = (k, i)" by (cases x)
  show ?case
  proof (cases "(nm, info) = (k, i)")
    case True
    then have "nm \<notin> fst ` set xs"
      using Cons.prems(1) by (simp add: x)
    then show ?thesis
      using True by (simp add: x map_of_fold_update_other update_conv')
  next
    case False
    then have "(nm, info) \<in> set xs"
      using Cons.prems(2) by (auto simp: x)
    moreover have "distinct (map fst xs)"
      using Cons.prems(1) by simp
    ultimately show ?thesis
      using Cons.IH by (simp add: x)
  qed
qed

lemma map_of_status_view:
  "distinct (map fst S) \<Longrightarrow> (nm, info) \<in> set S \<Longrightarrow> map_of (status_view S) nm = Some (status info)"
  unfolding status_view_def by (rule map_of_fold_update_member)

text \<open>
  C6. For every fleet view \<open>S\<close> (a dictionary, so its keys are distinct), diffing \<open>S\<close>
  against the previous view recorded from \<open>S\<close> itself appends nothing: the monitor, with
  its changelog, is unchanged.
\<close>

theorem check_status_changes_same_view:
  assumes "distinct (map fst S)" and "previous_status m = status_view S"
  shows "check_status_changes clk S m = m"
proof -
  have one: "fold (check_current clk (status_view S)) S (changelog m) = changelog m"
  proof (rule fold_identity)
    fix x cl
    assume mem: "x \<in> set S"
    obtain nm info where x: "x = (nm, info)" by (cases x)
    have "map_of (status_view S) nm = Some (status info)"
      using assms(1) mem unfolding x by (rule map_of_status_view)
    then show "check_current clk (status_view S) x cl = cl"
      by (simp add: check_current_def x)
  qed
  have two: "fold (check_previous clk (status_view S)) (dict_keys (status_view S)) (changelog m)
               = changelog m"
  proof (rule fold_identity)
    fix nm cl
    assume "nm \<in> set (dict_keys (status_view S))"
    then have "map_of (status_view S) nm \<noteq> None"
      by (simp add: dict_keys_def map_of_eq_None_iff)
    then show "check_previous clk (status_view S) nm cl = cl"
      by (auto simp: check_previous_def)
  qed
  show ?thesis
    by (simp add: check_status_changes_def Let_def assms(2) one two)
qed

text \<open>The view with the one running container \<open>web\<close>, diffed against itself.\<close>

theorem check_status_changes_same_view_witness:
  "distinct (map fst [(''web'', \<lparr>name = ''web'', status = ''running'', status_text = ''Up 2 hours'',
             color = ''success'', ports = ''80/tcp'', image_c = ''nginx'', size_c = ''1MB'',
             last_updated = ''t1''\<rparr>)])
   \<and> previous_status \<lparr>changelog = empty_changelog ''t0'',
        container_status = [],
        previous_status = [(''web'', ''running'')], monitoring = True\<rparr>
       = status_view [(''web'', \<lparr>name = ''web'', status = ''running'', status_text = ''Up 2 hours'',
             color = ''success'', ports = ''80/tcp'', image_c = ''nginx'', size_c = ''1MB'',
             last_updated = ''t1''\<rparr>)]
   \<and> check_status_changes (\<lambda>_. ''t2'')
        [(''web'', \<lparr>name = ''web'', status = ''running'', status_text = ''Up 2 hours'',
             color = ''success'', ports = ''80/tcp'', image_c = ''nginx'', size_c = ''1MB'',
             last_updated = ''t1''\<rparr>)]
        \<lparr>changelog = empty_changelog ''t0'',
        container_status = [],
        previous_status = [(''web'', ''running'')], monitoring = True\<rparr>
       = \<lparr>changelog = empty_changelog ''t0'',
        container_status = [],
        previous_status = [(''web'', ''running'')], monitoring = True\<rparr>"
proof -
  have d: "distinct (map fst [(''web'', \<lparr>name = ''web'', status = ''running'', status_text = ''Up 2 hours'',
             color = ''success'', ports = ''80/tcp'', image_c = ''nginx'', size_c = ''1MB'',
             last_updated = ''t1''\<rparr>)])"
    by simp
  have p: "previous_status \<lparr>changelog = empty_changelog ''t0'',
        container_status = [],
        previous_status = [(''web'', ''running'')], monitoring = True\<rparr>
       = status_view [(''web'', \<lparr>name = ''web'', status = ''running'', status_text = ''Up 2 hours'',
             color = ''success'', ports = ''80/tcp'', image_c = ''nginx'', size_c = ''1MB'',
             last_updated = ''t1''\<rparr>)]"
    by (simp add: status_view_def)
  from check_status_changes_same_view [OF d p, of "\<lambda>_. ''t2''"] d p show ?thesis
    by blast
qed

section \<open>Properties of the poll cycle\<close>

lemma keys_events:
  "concat (map (\<lambda>nm. if map_of ([]::(string \<times> string) list) nm = None then [T nm] else []) ks) = map T ks"
  by (induction ks) simp_all

text \<open>
  C1, as amended. When the list command raises (a timeout is raised) or returns a
  non-zero code, \<open>get_all_container_status\<close> returns the empty view and the cycle goes on
  as for an empty fleet: the stored view and the stored previous statuses become empty,
  and the changelog grows by one \<open>container_stopped\<close> entry of level \<open>warning\<close> for each
  name of the previous view, in its order. The changelog is unchanged when the previous
  view is empty.
\<close>

theorem failed_probe_cycle:
  assumes "r = Raised e \<or> (r = Completed rc out err \<and> rc \<noteq> 0)"
  shows "container_status (monitor_cycle clk now r m) = []
       \<and> previous_status (monitor_cycle clk now r m) = []
       \<and> (\<exists>news. entries (changelog (monitor_cycle clk now r m)) = entries (changelog m) @ news
             \<and> map (\<lambda>e. (action e, level e, details e)) news =
                 map (\<lambda>nm. (''container_stopped'', ''warning'',
                             ''Container '' @ quoted nm @ '' stopped''))
                     (dict_keys (previous_status m)))
       \<and> (previous_status m = [] \<longrightarrow>
            changelog (monitor_cycle clk now r m) = changelog m)"
proof -
  have g: "get_all_container_status now r = []"
    using assms by (auto simp: get_all_container_status_def)
  have c: "changelog (monitor_cycle clk now r m) =
             fold (check_previous clk []) (dict_keys (previous_status m)) (changelog m)"
    by (simp add: monitor_cycle_def Let_def g check_status_changes_def status_view_def)
  from fold_appends [of "check_previous clk []" "\<lambda>e. (action e, level e, details e)" _
                        "dict_keys (previous_status m)" "changelog m", OF check_previous_step]
  have "\<exists>news. entries (changelog (monitor_cycle clk now r m)) = entries (changelog m) @ news
             \<and> map (\<lambda>e. (action e, level e, details e)) news =
                 map (\<lambda>nm. (''container_stopped'', ''warning'',
                             ''Container '' @ quoted nm @ '' stopped''))
                     (dict_keys (previous_status m))"
    unfolding c by (simp only: keys_events)
  moreover have "container_status (monitor_cycle clk now r m) = []"
    and "previous_status (monitor_cycle clk now r m) = []"
    by (simp_all add: monitor_cycle_def Let_def g status_view_def)
  moreover have "previous_status m = [] \<longrightarrow> changelog (monitor_cycle clk now r m) = changelog m"
    by (simp add: c dict_keys_def)
  ultimately show ?thesis by blast
qed

text \<open>A timed-out probe after \<open>web\<close> was seen running.\<close>

theorem failed_probe_cycle_witness:
  "(Raised ''timed out after 10 seconds'' = Raised ''timed out after 10 seconds''
      \<or> (Raised ''timed out after 10 seconds'' = Completed 1 [] [] \<and> (1::int) \<noteq> 0))
   \<and> container_status (monitor_cycle (\<lambda>_. ''t2'') (\<lambda>_. ''t2'') (Raised ''timed out after 10 seconds'')
        \<lparr>changelog = empty_changelog ''t0'', container_status = [],
         previous_status = [(''web'', ''running'')], monitoring = True\<rparr>) = []
   \<and> previous_status (monitor_cycle (\<lambda>_. ''t2'') (\<lambda>_. ''t2'') (Raised ''timed out after 10 seconds'')
        \<lparr>changelog = empty_changelog ''t0'', container_status = [],
         previous_status = [(''web'', ''running'')], monitoring = True\<rparr>) = []
   \<and> (\<exists>news. entries (changelog (monitor_cycle (\<lambda>_. ''t2'') (\<lambda>_. ''t2'')
                 (Raised ''timed out after 10 seconds'')
                 \<lparr>changelog = empty_changelog ''t0'', container_status = [],
                  previous_status = [(''web'', ''running'')], monitoring = True\<rparr>))
               = entries (empty_changelog ''t0'') @ news
             \<and> map (\<lambda>e. (action e, level e, details e)) news =
                 [(''container_stopped'', ''warning'', ''Container 'web' stopped'')])"
proof -
  let ?m = "\<lparr>changelog = empty_changelog ''t0'', container_status = [],
         previous_status = [(''web'', ''running'')], monitoring = True\<rparr>"
  have h: "Raised ''timed out after 10 seconds'' = Raised ''timed out after 10 seconds''
      \<or> (Raised ''timed out after 10 seconds'' = Completed 1 [] [] \<and> (1::int) \<noteq> 0)"
    by simp
  have k: "map (\<lambda>nm. (''container_stopped'', ''warning'', ''Container '' @ quoted nm @ '' stopped''))
             (dict_keys (previous_status ?m))
           = [(''container_stopped'', ''warning'', ''Container 'web' stopped'')]"
    by (simp add: dict_keys_def quoted_def)
  have c: "changelog ?m = empty_changelog ''t0''"
    by simp
  from failed_probe_cycle [OF h, of "\<lambda>_. ''t2''" "\<lambda>_. ''t2''" ?m]
  show ?thesis
    unfolding k c using h by blast
qed

text \<open>
  The claim as stated fails: after a cycle that found the running container \<open>web\<close>, a
  cycle whose list command times out changes the stored view and the length of the
  changelog.
\<close>

theorem failed_probe_counterexample:
  "container_status
     (monitor_cycle (\<lambda>_. ''t2'') (\<lambda>_. ''t2'') (Raised ''timed out after 10 seconds'')
        (monitor_cycle (\<lambda>_. ''t1'') (\<lambda>_. ''t1'')
           (Completed 0 (''web'' @ [CHR 0x09] @ ''Up 2 hours'' @ [CHR 0x09] @ ''80/tcp''
                          @ [CHR 0x09] @ ''nginx'' @ [CHR 0x09] @ ''1MB'' @ [CHR 0x0A]) [])
           (init_monitor (empty_changelog ''t0''))))
     \<noteq> container_status
        (monitor_cycle (\<lambda>_. ''t1'') (\<lambda>_. ''t1'')
           (Completed 0 (''web'' @ [CHR 0x09] @ ''Up 2 hours'' @ [CHR 0x09] @ ''80/tcp''
                          @ [CHR 0x09] @ ''nginx'' @ [CHR 0x09] @ ''1MB'' @ [CHR 0x0A]) [])
           (init_monitor (empty_changelog ''t0'')))
   \<and> length (entries (changelog
     (monitor_cycle (\<lambda>_. ''t2'') (\<lambda>_. ''t2'') (Raised ''timed out after 10 seconds'')
        (monitor_cycle (\<lambda>_. ''t1'') (\<lambda>_. ''t1'')
           (Completed 0 (''web'' @ [CHR 0x09] @ ''Up 2 hours'' @ [CHR 0x09] @ ''80/tcp''
                          @ [CHR 0x09] @ ''nginx'' @ [CHR 0x09] @ ''1MB'' @ [CHR 0x0A]) [])
           (init_monitor (empty_changelog ''t0''))))))
     \<noteq> length (entries (changelog
        (monitor_cycle (\<lambda>_. ''t1'') (\<lambda>_. ''t1'')
           (Completed 0 (''web'' @ [CHR 0x09] @ ''Up 2 hours'' @ [CHR 0x09] @ ''80/tcp''
                          @ [CHR 0x09] @ ''nginx'' @ [CHR 0x09] @ ''1MB'' @ [CHR 0x0A]) [])
           (init_monitor (empty_changelog ''t0'')))))"
  by code_simp

section \<open>Properties of the parser\<close>

lemma starts_with_prefix: "starts_with p s = prefix p s"
  by (induction p s rule: starts_with.induct) simp_all

lemma str_contains_sublist: "str_contains sub s = sublist sub s"
  by (induction s) (simp_all add: starts_with_prefix sublist_Cons_right)

lemma fst_status_type:
  "fst (status_type st) =
     (if sublist ''Up'' st then ''running''
      else if sublist ''Exited'' st then ''stopped''
      else if sublist ''Created'' st then ''created''
      else ''unknown'')"
  by (simp add: status_type_def str_contains_sublist)

lemma parse_line_short:
  "length (split_on (CHR 0x09) line) < 5 \<Longrightarrow> parse_line t line cs = cs"
  by (simp add: parse_line_def Let_def)

lemma parse_line_update:
  assumes "5 \<le> length (split_on (CHR 0x09) line)" and "strip line \<noteq> []"
  shows "parse_line t line cs =
           AList.update (strip (split_on (CHR 0x09) line ! 0))
             \<lparr>name = strip (split_on (CHR 0x09) line ! 0),
              status = fst (status_type (strip (split_on (CHR 0x09) line ! 1))),
              status_text = strip (split_on (CHR 0x09) line ! 1),
              color = snd (status_type (strip (split_on (CHR 0x09) line ! 1))),
              ports = strip (split_on (CHR 0x09) line ! 2),
              image_c = strip (split_on (CHR 0x09) line ! 3),
              size_c = strip (split_on (CHR 0x09) line ! 4),
              last_updated = t\<rparr> cs"
  using assms by (simp add: parse_line_def Let_def case_prod_beta)

lemma parse_line_full:
  assumes "5 \<le> length (split_on (CHR 0x09) line)" and "strip line \<noteq> []"
  shows "\<exists>info. parse_line t line cs = AList.update (strip (split_on (CHR 0x09) line ! 0)) info cs
           \<and> status_text info = strip (split_on (CHR 0x09) line ! 1)
           \<and> status info = fst (status_type (status_text info))"
proof (intro exI conjI)
  show "parse_line t line cs =
           AList.update (strip (split_on (CHR 0x09) line ! 0))
             \<lparr>name = strip (split_on (CHR 0x09) line ! 0),
              status = fst (status_type (strip (split_on (CHR 0x09) line ! 1))),
              status_text = strip (split_on (CHR 0x09) line ! 1),
              color = snd (status_type (strip (split_on (CHR 0x09) line ! 1))),
              ports = strip (split_on (CHR 0x09) line ! 2),
              image_c = strip (split_on (CHR 0x09) line ! 3),
              size_c = strip (split_on (CHR 0x09) line ! 4),
              last_updated = t\<rparr> cs"
    by (rule parse_line_update [OF assms])
qed simp_all

lemma parse_line_cases:
  "parse_line t line cs = cs \<or>
   (\<exists>nm info. parse_line t line cs = AList.update nm info cs
       \<and> status info = fst (status_type (status_text info)))"
proof (cases "5 \<le> length (split_on (CHR 0x09) line) \<and> strip line \<noteq> []")
  case True
  then show ?thesis using parse_line_full [of line t cs] by blast
next
  case False
  then show ?thesis by (auto simp: parse_line_def Let_def)
qed

lemma set_update_cases:
  "x \<in> set (AList.update k v al) \<Longrightarrow> x = (k, v) \<or> x \<in> set al"
  by (induction al) (auto split: if_splits)

lemma fold_filter_skip:
  assumes "\<And>x acc. \<not> P x \<Longrightarrow> f x acc = acc"
  shows "fold f (filter P xs) acc = fold f xs acc"
  by (induction xs arbitrary: acc) (simp_all add: assms)

lemma parse_fold_classified:
  assumes "\<forall>(nm, info) \<in> set cs. status info = fst (status_type (status_text info))"
  shows "\<forall>(nm, info) \<in> set (fold (\<lambda>(i, line) containers. parse_line (now i) line containers) ls cs).
           status info = fst (status_type (status_text info))"
  using assms
proof (induction ls arbitrary: cs)
  case Nil
  then show ?case by simp
next
  case (Cons x ls)
  obtain i line where x: "x = (i, line)" by (cases x)
  have "\<forall>(nm, info) \<in> set (parse_line (now i) line cs).
           status info = fst (status_type (status_text info))"
  proof (rule ballI, clarify)
    fix nm info
    assume mem: "(nm, info) \<in> set (parse_line (now i) line cs)"
    from parse_line_cases [of "now i" line cs]
    show "status info = fst (status_type (status_text info))"
    proof
      assume "parse_line (now i) line cs = cs"
      with mem Cons.prems show ?thesis by auto
    next
      assume "\<exists>k v. parse_line (now i) line cs = AList.update k v cs
                \<and> status v = fst (status_type (status_text v))"
      then obtain k v where kv: "parse_line (now i) line cs = AList.update k v cs"
        "status v = fst (status_type (status_text v))"
        by blast
      from mem kv(1) have "(nm, info) = (k, v) \<or> (nm, info) \<in> set cs"
        by (auto dest: set_update_cases)
      with kv(2) Cons.prems show ?thesis by auto
    qed
  qed
  from Cons.IH [OF this] show ?case by (simp add: x)
qed

lemma get_all_classified:
  "\<forall>(nm, info) \<in> set (get_all_container_status now r).
     status info = fst (status_type (status_text info))"
proof (cases r)
  case (Completed rc out err)
  show ?thesis
  proof (cases "rc = 0")
    case True
    have "\<forall>(nm, info) \<in> set (parse_lines now (output_lines out)).
            status info = fst (status_type (status_text info))"
      unfolding parse_lines_def by (rule parse_fold_classified) simp
    then show ?thesis by (simp add: get_all_container_status_def Completed True)
  next
    case False
    then show ?thesis by (simp add: get_all_container_status_def Completed)
  qed
next
  case (Raised e)
  then show ?thesis by (simp add: get_all_container_status_def)
qed

lemma parse_line_exact:
  "parse_line t line cs =
     (if 5 \<le> length (split_on (CHR 0x09) line) \<and> strip line \<noteq> [] then
        AList.update (strip (split_on (CHR 0x09) line ! 0))
          \<lparr>name = strip (split_on (CHR 0x09) line ! 0),
           status =
             (if sublist ''Up'' (strip (split_on (CHR 0x09) line ! 1)) then ''running''
              else if sublist ''Exited'' (strip (split_on (CHR 0x09) line ! 1)) then ''stopped''
              else if sublist ''Created'' (strip (split_on (CHR 0x09) line ! 1)) then ''created''
              else ''unknown''),
           status_text = strip (split_on (CHR 0x09) line ! 1),
           color =
             (if sublist ''Up'' (strip (split_on (CHR 0x09) line ! 1)) then ''success''
              else if sublist ''Exited'' (strip (split_on (CHR 0x09) line ! 1)) then ''danger''
              else if sublist ''Created'' (strip (split_on (CHR 0x09) line ! 1)) then ''warning''
              else ''secondary''),
           ports = strip (split_on (CHR 0x09) line ! 2),
           image_c = strip (split_on (CHR 0x09) line ! 3),
           size_c = strip (split_on (CHR 0x09) line ! 4),
           last_updated = t\<rparr> cs
      else cs)"
  by (simp add: parse_line_def Let_def status_type_def str_contains_sublist)

lemma parse_line_skip:
  "\<not> (5 \<le> length (split_on (CHR 0x09) line) \<and> strip line \<noteq> []) \<Longrightarrow> parse_line t line cs = cs"
  by (auto simp: parse_line_def Let_def)

lemma get_all_fold:
  "get_all_container_status now (Completed 0 out err) =
     fold (\<lambda>(i, line) containers. parse_line (now i) line containers)
       (enumerate 0 (split_on (CHR 0x0A) (strip out))) []"
  by (simp add: get_all_container_status_def parse_lines_def output_lines_def)

lemma get_all_fold_filter:
  "get_all_container_status now (Completed 0 out err) =
     fold (\<lambda>(i, line) containers. parse_line (now i) line containers)
       (filter (\<lambda>(i, line). 5 \<le> length (split_on (CHR 0x09) line) \<and> strip line \<noteq> [])
          (enumerate 0 (split_on (CHR 0x0A) (strip out)))) []"
  unfolding get_all_fold
proof (rule fold_filter_skip [symmetric])
  fix x :: "nat \<times> string" and acc
  obtain i line where x: "x = (i, line)" by (cases x)
  assume "\<not> (case x of (i, line) \<Rightarrow> 5 \<le> length (split_on (CHR 0x09) line) \<and> strip line \<noteq> [])"
  then have "\<not> (5 \<le> length (split_on (CHR 0x09) line) \<and> strip line \<noteq> [])"
    by (simp add: x)
  then show "(case x of (i, line) \<Rightarrow> parse_line (now i) line) acc = acc"
    unfolding x by (simp add: parse_line_skip)
qed

lemma get_all_failed:
  "rc \<noteq> 0 \<Longrightarrow> get_all_container_status now (Completed rc out err) = []"
  "get_all_container_status now (Raised e) = []"
  by (simp_all add: get_all_container_status_def)

lemma split_on_nonempty: "split_on sep s \<noteq> []"
  by (induction s) (auto split: list.splits)

lemma split_on_pieces:
  "length (split_on sep s) = Suc (count_list s sep)
   \<and> concat (split_on sep s) = filter (\<lambda>c. c \<noteq> sep) s"
  by (induction s) (auto split: list.splits simp: split_on_nonempty)

lemma split_on_no_sep: "p \<in> set (split_on sep s) \<Longrightarrow> sep \<notin> set p"
  by (induction s arbitrary: p) (auto split: list.splits if_splits)

text \<open>
  C9, as amended. The lines parsed are those of the standard output stripped of leading
  and trailing whitespace and split at newlines. A line that is blank (whitespace only)
  or has fewer than five tab-separated columns leaves the dictionary of containers as
  it is; every other line stores, under its stripped first column, the snapshot of its
  stripped columns, whose status is \<open>running\<close> when the status text (the stripped second
  column) contains \<open>Up\<close>, else \<open>stopped\<close> when it contains \<open>Exited\<close>, else \<open>created\<close>
  when it contains \<open>Created\<close>, else \<open>unknown\<close>. The view returned for a list command
  that returns 0 is the result of doing this for the lines in order, which is the same
  as doing it for the lines that are not skipped; and every snapshot of a returned view
  has its status classified so.
\<close>

theorem parse_classifies_and_skips:
  "parse_line t line cs =
     (if 5 \<le> length (split_on (CHR 0x09) line) \<and> strip line \<noteq> [] then
        AList.update (strip (split_on (CHR 0x09) line ! 0))
          \<lparr>name = strip (split_on (CHR 0x09) line ! 0),
           status =
             (if sublist ''Up'' (strip (split_on (CHR 0x09) line ! 1)) then ''running''
              else if sublist ''Exited'' (strip (split_on (CHR 0x09) line ! 1)) then ''stopped''
              else if sublist ''Created'' (strip (split_on (CHR 0x09) line ! 1)) then ''created''
              else ''unknown''),
           status_text = strip (split_on (CHR 0x09) line ! 1),
           color =
             (if sublist ''Up'' (strip (split_on (CHR 0x09) line ! 1)) then ''success''
              else if sublist ''Exited'' (strip (split_on (CHR 0x09) line ! 1)) then ''danger''
              else if sublist ''Created'' (strip (split_on (CHR 0x09) line ! 1)) then ''warning''
              else ''secondary''),
           ports = strip (split_on (CHR 0x09) line ! 2),
           image_c = strip (split_on (CHR 0x09) line ! 3),
           size_c = strip (split_on (CHR 0x09) line ! 4),
           last_updated = t\<rparr> cs
      else cs)
   \<and> get_all_container_status now (Completed 0 out err) =
       fold (\<lambda>(i, line) containers. parse_line (now i) line containers)
         (enumerate 0 (split_on (CHR 0x0A) (strip out))) []
   \<and> get_all_container_status now (Completed 0 out err) =
       fold (\<lambda>(i, line) containers. parse_line (now i) line containers)
         (filter (\<lambda>(i, line). 5 \<le> length (split_on (CHR 0x09) line) \<and> strip line \<noteq> [])
            (enumerate 0 (split_on (CHR 0x0A) (strip out)))) []
   \<and> (\<forall>(nm, info) \<in> set (get_all_container_status now r).
        status info =
          (if sublist ''Up'' (status_text info) then ''running''
           else if sublist ''Exited'' (status_text info) then ''stopped''
           else if sublist ''Created'' (status_text info) then ''created''
           else ''unknown''))"
proof (intro conjI)
  show "\<forall>(nm, info) \<in> set (get_all_container_status now r).
        status info =
          (if sublist ''Up'' (status_text info) then ''running''
           else if sublist ''Exited'' (status_text info) then ''stopped''
           else if sublist ''Created'' (status_text info) then ''created''
           else ''unknown'')"
    using get_all_classified [of now r] by (simp only: fst_status_type)
qed (rule parse_line_exact get_all_fold get_all_fold_filter)+

text \<open>
  An output of three lines: the line of two columns for \<open>cache\<close> contributes nothing,
  \<open>web\<close> is stored as running and \<open>db\<close> as stopped.
\<close>

theorem parse_classifies_and_skips_witness:
  "get_all_container_status (\<lambda>i. ''t1'')
     (Completed 0
        (''web'' @ [CHR 0x09] @ ''Up 2 hours'' @ [CHR 0x09] @ ''80/tcp'' @ [CHR 0x09]
           @ ''nginx'' @ [CHR 0x09] @ ''1MB'' @ [CHR 0x0A]
         @ ''cache'' @ [CHR 0x09] @ ''Up 5 minutes'' @ [CHR 0x0A]
         @ ''db'' @ [CHR 0x09] @ ''Exited (0) 3 days ago'' @ [CHR 0x09] @ [CHR 0x09]
           @ ''postgres'' @ [CHR 0x09] @ ''0B'' @ [CHR 0x0A]) [])
     = [(''web'', \<lparr>name = ''web'', status = ''running'', status_text = ''Up 2 hours'',
                   color = ''success'', ports = ''80/tcp'', image_c = ''nginx'',
                   size_c = ''1MB'', last_updated = ''t1''\<rparr>),
        (''db'', \<lparr>name = ''db'', status = ''stopped'', status_text = ''Exited (0) 3 days ago'',
                  color = ''danger'', ports = [], image_c = ''postgres'',
                  size_c = ''0B'', last_updated = ''t1''\<rparr>)]
   \<and> (''db'', \<lparr>name = ''db'', status = ''stopped'', status_text = ''Exited (0) 3 days ago'',
                  color = ''danger'', ports = [], image_c = ''postgres'',
                  size_c = ''0B'', last_updated = ''t1''\<rparr>)
       \<in> set (get_all_container_status (\<lambda>i. ''t1'')
            (Completed 0
               (''web'' @ [CHR 0x09] @ ''Up 2 hours'' @ [CHR 0x09] @ ''80/tcp'' @ [CHR 0x09]
                  @ ''nginx'' @ [CHR 0x09] @ ''1MB'' @ [CHR 0x0A]
                @ ''cache'' @ [CHR 0x09] @ ''Up 5 minutes'' @ [CHR 0x0A]
                @ ''db'' @ [CHR 0x09] @ ''Exited (0) 3 days ago'' @ [CHR 0x09] @ [CHR 0x09]
                  @ ''postgres'' @ [CHR 0x09] @ ''0B'' @ [CHR 0x0A]) []))
   \<and> status \<lparr>name = ''db'', status = ''stopped'', status_text = ''Exited (0) 3 days ago'',
                  color = ''danger'', ports = [], image_c = ''postgres'',
                  size_c = ''0B'', last_updated = ''t1''\<rparr>
       = (if sublist ''Up'' (status_text \<lparr>name = ''db'', status = ''stopped'',
                  status_text = ''Exited (0) 3 days ago'',
                  color = ''danger'', ports = [], image_c = ''postgres'',
                  size_c = ''0B'', last_updated = ''t1''\<rparr>) then ''running''
          else if sublist ''Exited'' (status_text \<lparr>name = ''db'', status = ''stopped'',
                  status_text = ''Exited (0) 3 days ago'',
                  color = ''danger'', ports = [], image_c = ''postgres'',
                  size_c = ''0B'', last_updated = ''t1''\<rparr>) then ''stopped''
          else if sublist ''Created'' (status_text \<lparr>name = ''db'', status = ''stopped'',
                  status_text = ''Exited (0) 3 days ago'',
                  color = ''danger'', ports = [], image_c = ''postgres'',
                  size_c = ''0B'', last_updated = ''t1''\<rparr>) then ''created''
          else ''unknown'')"
proof -
  let ?r = "Completed 0
        (''web'' @ [CHR 0x09] @ ''Up 2 hours'' @ [CHR 0x09] @ ''80/tcp'' @ [CHR 0x09]
           @ ''nginx'' @ [CHR 0x09] @ ''1MB'' @ [CHR 0x0A]
         @ ''cache'' @ [CHR 0x09] @ ''Up 5 minutes'' @ [CHR 0x0A]
         @ ''db'' @ [CHR 0x09] @ ''Exited (0) 3 days ago'' @ [CHR 0x09] @ [CHR 0x09]
           @ ''postgres'' @ [CHR 0x09] @ ''0B'' @ [CHR 0x0A]) []"
  let ?db = "\<lparr>name = ''db'', status = ''stopped'', status_text = ''Exited (0) 3 days ago'',
                  color = ''danger'', ports = [], image_c = ''postgres'',
                  size_c = ''0B'', last_updated = ''t1''\<rparr>"
  have view: "get_all_container_status (\<lambda>i. ''t1'') ?r
     = [(''web'', \<lparr>name = ''web'', status = ''running'', status_text = ''Up 2 hours'',
                   color = ''success'', ports = ''80/tcp'', image_c = ''nginx'',
                   size_c = ''1MB'', last_updated = ''t1''\<rparr>),
        (''db'', ?db)]"
    by code_simp
  have mem: "(''db'', ?db) \<in> set (get_all_container_status (\<lambda>i. ''t1'') ?r)"
    unfolding view by simp
  note T = parse_classifies_and_skips
             [where now = "\<lambda>i. ''t1''" and r = ?r and t = "''t1''" and line = "[]" and cs = "[]"
                and out = "[]" and err = "[]"]
  have cls: "status ?db =
       (if sublist ''Up'' (status_text ?db) then ''running''
        else if sublist ''Exited'' (status_text ?db) then ''stopped''
        else if sublist ''Created'' (status_text ?db) then ''created''
        else ''unknown'')"
    using bspec [OF T [THEN conjunct2, THEN conjunct2, THEN conjunct2] mem]
    by (simp only: prod.case)
  show ?thesis
    by (rule conjI [OF view conjI [OF mem cls]])
qed

text \<open>
  The claim as stated fails on a blank line: in an output whose second line is four tabs,
  that line has five (empty) columns, so it is not one of the lines with fewer than five
  columns and its status text would classify as \<open>unknown\<close>; the code skips it, and the
  view holds \<open>web\<close> and \<open>db\<close> only.
\<close>

theorem parse_blank_line_counterexample:
  "5 \<le> length (split_on (CHR 0x09) [CHR 0x09, CHR 0x09, CHR 0x09, CHR 0x09])
   \<and> split_on (CHR 0x0A)
        (strip (''web'' @ [CHR 0x09] @ ''Up 2 hours'' @ [CHR 0x09] @ ''80/tcp'' @ [CHR 0x09]
                  @ ''nginx'' @ [CHR 0x09] @ ''1MB'' @ [CHR 0x0A]
                @ [CHR 0x09, CHR 0x09, CHR 0x09, CHR 0x09] @ [CHR 0x0A]
                @ ''db'' @ [CHR 0x09] @ ''Exited (0) 3 days ago'' @ [CHR 0x09] @ [CHR 0x09]
                  @ ''postgres'' @ [CHR 0x09] @ ''0B'' @ [CHR 0x0A])) ! 1
       = [CHR 0x09, CHR 0x09, CHR 0x09, CHR 0x09]
   \<and> map (\<lambda>(nm, info). (nm, status info))
        (get_all_container_status (\<lambda>i. ''t1'')
           (Completed 0
              (''web'' @ [CHR 0x09] @ ''Up 2 hours'' @ [CHR 0x09] @ ''80/tcp'' @ [CHR 0x09]
                 @ ''nginx'' @ [CHR 0x09] @ ''1MB'' @ [CHR 0x0A]
               @ [CHR 0x09, CHR 0x09, CHR 0x09, CHR 0x09] @ [CHR 0x0A]
               @ ''db'' @ [CHR 0x09] @ ''Exited (0) 3 days ago'' @ [CHR 0x09] @ [CHR 0x09]
                 @ ''postgres'' @ [CHR 0x09] @ ''0B'' @ [CHR 0x0A]) []))
       = [(''web'', ''running''), (''db'', ''stopped'')]"
  by code_simp

end
